theory Spec2Isabelle
  imports Complex_Main
begin

section \<open>Strings\<close>

text \<open>
  A Python string is modelled as a \<open>string\<close>: one \<open>char\<close> per character, for the
  characters below 256. \<open>is_space\<close> is \<open>str.isspace\<close> on that range, the set of characters
  that \<open>str.strip()\<close> removes at both ends.
\<close>

definition is_space :: "char \<Rightarrow> bool" where
  "is_space c = (c \<in> set [CHR 0x09, CHR 0x0A, CHR 0x0B, CHR 0x0C, CHR 0x0D, CHR 0x1C,
                          CHR 0x1D, CHR 0x1E, CHR 0x1F, CHR 0x20, CHR 0x85, CHR 0xA0])"

definition strip :: "string \<Rightarrow> string" where
  "strip s = rev (dropWhile is_space (rev (dropWhile is_space s)))"

text \<open>
  \<open>text.split(d)\<close> for a one-character separator: the pieces between the separators, the
  separators dropped; \<open>n\<close> separators give \<open>n + 1\<close> pieces and the empty string gives one
  empty piece. The result is never the empty list, so the first branch of the
  \<open>case\<close> below is never taken.
\<close>

fun split_on :: "char \<Rightarrow> string \<Rightarrow> string list" where
  "split_on d [] = [[]]"
| "split_on d (c # cs) =
     (if c = d then [] # split_on d cs
      else (case split_on d cs of [] \<Rightarrow> [[c]] | f # fs \<Rightarrow> (c # f) # fs))"

text \<open>The text with its whitespace removed, the order of the other characters kept.\<close>

definition nows :: "string \<Rightarrow> string" where
  "nows s = filter (\<lambda>c. \<not> is_space c) s"

section \<open>The chunker\<close>

text \<open>
  \<^verbatim>\<open>
  def split_into_chunks(text, chunk_size=100):
      sentences = text.split(".")
      chunks = []
      current = ""
      for sentence in sentences:
          if len(current) + len(sentence) < chunk_size:
              current += sentence + "."
          else:
              chunks.append(current.strip())
              current = sentence + "."
      if current:
          chunks.append(current.strip())
      return chunks
  \<close>
  The same function stands in \<open>deepDocGevalGolden.py\<close> and in \<open>deepDocTestCase.py\<close>.
  \<open>chunk_loop\<close> is the \<open>for\<close> loop, on the sentences still to come and the two variables
  \<open>chunks\<close> and \<open>current\<close>; \<open>chunk_size\<close> is a Python integer.
\<close>

fun chunk_loop :: "int \<Rightarrow> string list \<Rightarrow> string list \<Rightarrow> string \<Rightarrow> string list \<times> string" where
  "chunk_loop chunk_size [] chunks current = (chunks, current)"
| "chunk_loop chunk_size (sentence # sentences) chunks current =
     (if int (length current) + int (length sentence) < chunk_size
      then chunk_loop chunk_size sentences chunks (current @ sentence @ ''.'')
      else chunk_loop chunk_size sentences (chunks @ [strip current]) (sentence @ ''.''))"

definition split_into_chunks :: "string \<Rightarrow> int \<Rightarrow> string list" where
  "split_into_chunks text chunk_size =
     (case chunk_loop chunk_size (split_on CHR ''.'' text) [] [] of
        (chunks, current) \<Rightarrow> if current \<noteq> [] then chunks @ [strip current] else chunks)"

section \<open>Retrieval\<close>

text \<open>
  \<^verbatim>\<open>
  chunks = split_into_chunks(document)
  embedding_model = SentenceTransformer("all-MiniLM-L6-v2")
  chunk_embeddings = embedding_model.encode(chunks)

  def retrieve_context(query):
      query_emb = embedding_model.encode([query])
      scores = cosine_similarity(query_emb, chunk_embeddings)[0]
      best_chunk = chunks[np.argmax(scores)]
      return best_chunk
  \<close>
  The exceptions of Python are values of \<open>py_error\<close>. \<open>ValueError\<close> and \<open>IndexError\<close> are
  what the array library and list indexing raise. \<open>DegenerateEmbedding\<close> is a name of the
  specification's taxonomy; no statement of the source raises it, and no function below
  returns it.
\<close>

datatype py_error = ValueError | IndexError | DegenerateEmbedding

text \<open>
  \<open>np.argmax\<close> on a vector of finite numbers: the index of the first occurrence of the
  maximum; on an empty vector it raises \<open>ValueError\<close>. \<open>argmax_loop\<close> scans from the left and
  keeps the best value and its index, replaced only by a strictly greater value.
\<close>

fun argmax_loop :: "real list \<Rightarrow> nat \<Rightarrow> real \<Rightarrow> nat \<Rightarrow> nat" where
  "argmax_loop [] i best best_i = best_i"
| "argmax_loop (x # xs) i best best_i =
     (if best < x then argmax_loop xs (Suc i) x i else argmax_loop xs (Suc i) best best_i)"

definition argmax :: "real list \<Rightarrow> py_error + nat" where
  "argmax scores =
     (case scores of [] \<Rightarrow> Inl ValueError | x # xs \<Rightarrow> Inr (argmax_loop xs 1 x 0))"

text \<open>\<open>xs[i]\<close> for an index that is not negative.\<close>

definition getitem :: "'a list \<Rightarrow> nat \<Rightarrow> py_error + 'a" where
  "getitem xs i = (if i < length xs then Inr (xs ! i) else Inl IndexError)"

text \<open>
  The embedding model and the similarity function belong to libraries outside the
  repository: they are the parameters \<open>encode\<close> (one vector for one string) and
  \<open>cosine_similarity\<close> (one score for the query vector and one chunk vector). The globals
  \<open>chunks\<close> and \<open>chunk_embeddings\<close> that the function reads are arguments. An embedding
  is a list of reals, every finite floating-point number being one; nothing is assumed of
  the arithmetic that produces the scores. In the program \<open>chunk_embeddings\<close> holds one
  embedding for each chunk, in the order of the chunks, so the two lists have the same
  length, and they are never empty: \<open>split_into_chunks\<close> returns at least one chunk for
  every document, so \<open>argmax\<close> never meets the empty score vector in the program.
\<close>

definition retrieve_context ::
  "(string \<Rightarrow> real list) \<Rightarrow> (real list \<Rightarrow> real list \<Rightarrow> real) \<Rightarrow>
   string list \<Rightarrow> real list list \<Rightarrow> string \<Rightarrow> py_error + string" where
  "retrieve_context encode cosine_similarity chunks chunk_embeddings query =
     (let query_emb = encode query;
          scores = map (cosine_similarity query_emb) chunk_embeddings
      in case argmax scores of
           Inl e \<Rightarrow> Inl e
         | Inr best \<Rightarrow> getitem chunks best)"

subsection \<open>An instance of the two parameters, for the examples\<close>

text \<open>
  \<open>cosine\<close> is the cosine similarity in exact arithmetic, on two vectors of the same
  dimension: the inner product of the two vectors, each divided by its Euclidean norm. A
  vector of norm zero is left as it is, as the library's normalisation does, so it scores
  0 against every vector. \<open>fixed_encode v\<close> is an embedder that gives every string the
  vector \<open>v\<close>. The examples below are evaluated with these two; the theorems hold for every
  embedder and every similarity function.
\<close>

definition dot :: "real list \<Rightarrow> real list \<Rightarrow> real" where
  "dot x y = sum_list (map2 (*) x y)"

definition unit_norm :: "real list \<Rightarrow> real" where
  "unit_norm x = (if sqrt (dot x x) = 0 then 1 else sqrt (dot x x))"

definition cosine :: "real list \<Rightarrow> real list \<Rightarrow> real" where
  "cosine x y = dot x y / (unit_norm x * unit_norm y)"

definition fixed_encode :: "real list \<Rightarrow> string \<Rightarrow> real list" where
  "fixed_encode v s = v"

section \<open>Splitting and trimming\<close>

lemma split_on_not_Nil: "split_on d s \<noteq> []"
  by (induction s) (auto split: list.splits)

lemma split_on_concat: "concat (map (\<lambda>f. f @ [d]) (split_on d s)) = s @ [d]"
proof (induction s)
  case Nil
  show ?case by simp
next
  case (Cons c cs)
  show ?case
  proof (cases "c = d")
    case True
    with Cons show ?thesis by simp
  next
    case False
    obtain f fs where "split_on d cs = f # fs"
      using split_on_not_Nil [of d cs] by (cases "split_on d cs") auto
    with Cons False show ?thesis by simp
  qed
qed

lemma split_on_no_sep: "d \<notin> set s \<Longrightarrow> split_on d s = [s]"
  by (induction s) auto

lemma length_strip: "length (strip s) \<le> length s"
proof -
  have "length (strip s) = length (dropWhile is_space (rev (dropWhile is_space s)))"
    by (simp add: strip_def)
  also have "\<dots> \<le> length (rev (dropWhile is_space s))"
    by (rule length_dropWhile_le)
  also have "\<dots> \<le> length s"
    by (simp add: length_dropWhile_le)
  finally show ?thesis .
qed

lemma filter_not_dropWhile:
  "filter (\<lambda>c. \<not> P c) (dropWhile P xs) = filter (\<lambda>c. \<not> P c) xs"
  by (induction xs) auto

lemma nows_strip: "nows (strip s) = nows s"
  by (simp add: nows_def strip_def filter_not_dropWhile flip: rev_filter)

lemma nows_append: "nows (a @ b) = nows a @ nows b"
  by (simp add: nows_def)

lemma nows_Cons: "nows (c # s) = nows [c] @ nows s"
  by (simp add: nows_def)

lemma nows_dot: "nows ''.'' = ''.''"
  by (simp add: nows_def is_space_def)

section \<open>The loop of the chunker\<close>

text \<open>
  Nothing but whitespace is lost: the non-whitespace characters of the chunks and of the
  accumulator are those of the sentences read so far, each with its period.
\<close>

lemma chunk_loop_coverage:
  "chunk_loop n ss chunks cur = (chunks', cur') \<Longrightarrow>
   nows (concat chunks') @ nows cur' =
   nows (concat chunks) @ nows cur @ nows (concat (map (\<lambda>f. f @ ''.'') ss))"
proof (induction ss arbitrary: chunks cur)
  case Nil
  then show ?case by (simp add: nows_def)
next
  case (Cons s ss)
  show ?case
  proof (cases "int (length cur) + int (length s) < n")
    case True
    with Cons.prems have "chunk_loop n ss chunks (cur @ s @ ''.'') = (chunks', cur')"
      by simp
    from Cons.IH [OF this] show ?thesis
      by (simp add: nows_append nows_Cons [of "CHR ''.''" "concat xs" for xs])
  next
    case False
    with Cons.prems have "chunk_loop n ss (chunks @ [strip cur]) (s @ ''.'') = (chunks', cur')"
      by simp
    from Cons.IH [OF this] show ?thesis
      by (simp add: nows_append nows_strip nows_Cons [of "CHR ''.''" "concat xs" for xs])
  qed
qed

text \<open>After one sentence or more, the accumulator ends with the period just appended.\<close>

lemma chunk_loop_current:
  "chunk_loop n ss chunks cur = (chunks', cur') \<Longrightarrow>
   ss \<noteq> [] \<or> (cur \<noteq> [] \<and> last cur = CHR ''.'') \<Longrightarrow>
   cur' \<noteq> [] \<and> last cur' = CHR ''.''"
proof (induction ss arbitrary: chunks cur)
  case Nil
  then show ?case by simp
next
  case (Cons s ss)
  show ?case
  proof (cases "int (length cur) + int (length s) < n")
    case True
    with Cons.prems have "chunk_loop n ss chunks (cur @ s @ ''.'') = (chunks', cur')"
      by simp
    from Cons.IH [OF this] show ?thesis by simp
  next
    case False
    with Cons.prems have "chunk_loop n ss (chunks @ [strip cur]) (s @ ''.'') = (chunks', cur')"
      by simp
    from Cons.IH [OF this] show ?thesis by simp
  qed
qed

lemma final_current:
  "snd (chunk_loop n (split_on CHR ''.'' text) [] []) \<noteq> [] \<and>
   last (snd (chunk_loop n (split_on CHR ''.'' text) [] [])) = CHR ''.''"
proof -
  obtain chunks cur where r: "chunk_loop n (split_on CHR ''.'' text) [] [] = (chunks, cur)"
    by (cases "chunk_loop n (split_on CHR ''.'' text) [] []")
  from chunk_loop_current [OF r] split_on_not_Nil show ?thesis
    by (simp add: r)
qed

lemma chunks_not_Nil: "split_into_chunks text n \<noteq> []"
proof -
  obtain chunks cur where r: "chunk_loop n (split_on CHR ''.'' text) [] [] = (chunks, cur)"
    by (cases "chunk_loop n (split_on CHR ''.'' text) [] []")
  from final_current [of n "text"] r have "cur \<noteq> []" by simp
  with r show ?thesis by (simp add: split_into_chunks_def)
qed

lemma chunks_nows: "nows (concat (split_into_chunks text n)) = nows text @ ''.''"
proof -
  obtain chunks cur where r: "chunk_loop n (split_on CHR ''.'' text) [] [] = (chunks, cur)"
    by (cases "chunk_loop n (split_on CHR ''.'' text) [] []")
  from chunk_loop_coverage [OF r]
  have "nows (concat chunks) @ nows cur = nows (text @ ''.'')"
    using split_on_concat [of "CHR ''.''" "text"] by (simp add: nows_def)
  moreover have "nows (text @ ''.'') = nows text @ ''.''"
    by (simp add: nows_append nows_dot)
  moreover have "nows (concat (split_into_chunks text n)) = nows (concat chunks) @ nows cur"
    using r by (simp add: split_into_chunks_def nows_append nows_strip) (simp add: nows_def)
  ultimately show ?thesis by simp
qed

text \<open>
  The size invariant of the loop, for chunk sizes that are not negative: a flushed chunk
  is within the chunk size, or it is one sentence alone that is longer; the accumulator
  is within the chunk size, or it holds one sentence alone.
\<close>

lemma strip_sized:
  assumes "int (length cur) \<le> n \<or> (\<exists>s\<in>F. cur = s @ ''.'')"
  shows "int (length (strip cur)) \<le> n \<or>
         (\<exists>s\<in>F. strip cur = strip (s @ ''.'') \<and> n < int (length (s @ ''.'')))"
proof (cases "int (length (strip cur)) \<le> n")
  case True
  then show ?thesis by simp
next
  case False
  with length_strip [of cur] have big: "n < int (length cur)" by linarith
  with assms obtain s where "s \<in> F" "cur = s @ ''.''" by auto
  with big show ?thesis by auto
qed

lemma chunk_loop_sized:
  assumes "chunk_loop n ss chunks cur = (chunks', cur')"
    and "set ss \<subseteq> F"
    and "\<forall>c\<in>set chunks. int (length c) \<le> n \<or>
           (\<exists>s\<in>F. c = strip (s @ ''.'') \<and> n < int (length (s @ ''.'')))"
    and "int (length cur) \<le> n \<or> (\<exists>s\<in>F. cur = s @ ''.'')"
  shows "(\<forall>c\<in>set chunks'. int (length c) \<le> n \<or>
           (\<exists>s\<in>F. c = strip (s @ ''.'') \<and> n < int (length (s @ ''.'')))) \<and>
         (int (length cur') \<le> n \<or> (\<exists>s\<in>F. cur' = s @ ''.''))"
  using assms
proof (induction ss arbitrary: chunks cur)
  case Nil
  then show ?case by simp
next
  case (Cons s ss)
  from Cons.prems(2) have sF: "s \<in> F" and ssF: "set ss \<subseteq> F" by auto
  show ?case
  proof (cases "int (length cur) + int (length s) < n")
    case True
    with Cons.prems(1) have r: "chunk_loop n ss chunks (cur @ s @ ''.'') = (chunks', cur')"
      by simp
    from True have "int (length (cur @ s @ ''.'')) \<le> n" by simp
    then have "int (length (cur @ s @ ''.'')) \<le> n \<or> (\<exists>t\<in>F. cur @ s @ ''.'' = t @ ''.'')" ..
    from Cons.IH [OF r ssF Cons.prems(3) this] show ?thesis .
  next
    case False
    with Cons.prems(1)
    have r: "chunk_loop n ss (chunks @ [strip cur]) (s @ ''.'') = (chunks', cur')"
      by simp
    have a: "\<forall>c\<in>set (chunks @ [strip cur]). int (length c) \<le> n \<or>
           (\<exists>s\<in>F. c = strip (s @ ''.'') \<and> n < int (length (s @ ''.'')))"
      using Cons.prems(3) strip_sized [OF Cons.prems(4)] by auto
    have b: "int (length (s @ ''.'')) \<le> n \<or> (\<exists>t\<in>F. s @ ''.'' = t @ ''.'')"
      using sF by blast
    from Cons.IH [OF r ssF a b] show ?thesis .
  qed
qed

section \<open>The first maximum\<close>

lemma argmax_loop_first_max:
  assumes "length pre = i" and "best_i < i" and "pre ! best_i = best"
    and "\<forall>j<i. pre ! j \<le> best" and "\<forall>j<best_i. pre ! j < best"
  shows "argmax_loop xs i best best_i < length (pre @ xs) \<and>
         (\<forall>j<length (pre @ xs). (pre @ xs) ! j \<le> (pre @ xs) ! argmax_loop xs i best best_i) \<and>
         (\<forall>j<argmax_loop xs i best best_i.
            (pre @ xs) ! j < (pre @ xs) ! argmax_loop xs i best best_i)"
  using assms
proof (induction xs arbitrary: pre i best best_i)
  case Nil
  then show ?case by simp
next
  case (Cons x xs)
  have 1: "length (pre @ [x]) = Suc i" using Cons.prems(1) by simp
  show ?case
  proof (cases "best < x")
    case True
    have 2: "i < Suc i" by simp
    have 3: "(pre @ [x]) ! i = x" using Cons.prems(1) by (auto simp: nth_append)
    have 4: "\<forall>j<Suc i. (pre @ [x]) ! j \<le> x"
      using Cons.prems(1,4) True by (auto simp: nth_append less_Suc_eq)
    have 5: "\<forall>j<i. (pre @ [x]) ! j < x"
      using Cons.prems(1,4) True by (auto simp: nth_append)
    from Cons.IH [OF 1 2 3 4 5] True show ?thesis by simp
  next
    case False
    have 2: "best_i < Suc i" using Cons.prems(2) by simp
    have 3: "(pre @ [x]) ! best_i = best" using Cons.prems(1,2,3) by (simp add: nth_append)
    have 4: "\<forall>j<Suc i. (pre @ [x]) ! j \<le> best"
      using Cons.prems(1,4) False by (auto simp: nth_append less_Suc_eq)
    have 5: "\<forall>j<best_i. (pre @ [x]) ! j < best"
      using Cons.prems(1,2,5) by (auto simp: nth_append)
    from Cons.IH [OF 1 2 3 4 5] False show ?thesis by simp
  qed
qed

lemma argmax_first_max:
  assumes "scores \<noteq> []"
  shows "\<exists>r. argmax scores = Inr r \<and> r < length scores \<and>
             (\<forall>j<length scores. scores ! j \<le> scores ! r) \<and> (\<forall>j<r. scores ! j < scores ! r)"
proof -
  from assms obtain x xs where s: "scores = x # xs" by (cases scores) auto
  have "argmax_loop xs 1 x 0 < length ([x] @ xs) \<and>
        (\<forall>j<length ([x] @ xs). ([x] @ xs) ! j \<le> ([x] @ xs) ! argmax_loop xs 1 x 0) \<and>
        (\<forall>j<argmax_loop xs 1 x 0. ([x] @ xs) ! j < ([x] @ xs) ! argmax_loop xs 1 x 0)"
    by (rule argmax_loop_first_max) auto
  with s show ?thesis by (simp add: argmax_def)
qed

lemma argmax_unique:
  assumes "i < length scores"
    and "\<forall>j<length scores. scores ! j \<le> scores ! i"
    and "\<forall>j<i. scores ! j < scores ! i"
  shows "argmax scores = Inr i"
proof -
  from assms(1) have "scores \<noteq> []" by auto
  from argmax_first_max [OF this] obtain r where r: "argmax scores = Inr r" "r < length scores"
    "\<forall>j<length scores. scores ! j \<le> scores ! r" "\<forall>j<r. scores ! j < scores ! r" by blast
  have "r = i"
  proof (rule ccontr)
    assume "r \<noteq> i"
    then consider "r < i" | "i < r" by linarith
    then show False
    proof cases
      case 1
      with assms(3) have "scores ! r < scores ! i" by simp
      moreover from r(3) assms(1) have "scores ! i \<le> scores ! r" by simp
      ultimately show False by simp
    next
      case 2
      with r(4) have "scores ! i < scores ! r" by simp
      moreover from assms(2) r(2) have "scores ! r \<le> scores ! i" by simp
      ultimately show False by simp
    qed
  qed
  with r(1) show ?thesis by simp
qed

lemma sqrt_four: "sqrt 4 = 2"
  using real_sqrt_abs [of 2] by simp

section \<open>The chunker on the documents of the specification\<close>

text \<open>
  C1. The scenario of the specification: the document \<open>A is a. B is b. C is c.\<close> should give
  the single chunk \<open>A is a. B is b. C is c.\<close> at threshold 100, and three chunks of one
  sentence each at threshold 8. The code gives something else: \<open>split\<close> yields a fourth,
  empty piece after the last period, and the loop appends a period to it as to the others.
  At threshold 100 the single chunk ends with two periods; at threshold 8 a fourth chunk
  holds a lone period.
\<close>

theorem scenario_chunks:
  "split_into_chunks ''A is a. B is b. C is c.'' 100 = [''A is a. B is b. C is c..''] \<and>
   split_into_chunks ''A is a. B is b. C is c.'' 8 = [''A is a.'', ''B is b.'', ''C is c.'', ''.'']"
  by (simp add: split_into_chunks_def strip_def is_space_def)

text \<open>
  C3. Every chunk should be non-empty. The flush inside the loop appends
  \<open>current.strip()\<close> without the test \<open>if current:\<close> that guards the flush after the loop, so
  a first sentence that does not fit under the threshold flushes the still empty
  accumulator: the first chunk is the empty string.
\<close>

theorem first_chunk_empty:
  "split_into_chunks ''Hello world'' 5 = ['''', ''Hello world.'']"
  by (simp add: split_into_chunks_def strip_def is_space_def)

text \<open>
  C4. The empty document should give no chunk. \<open>''''.split(''.'')\<close> is one empty piece, the
  loop appends a period to it, and the test \<open>if current:\<close> then sees a non-empty
  accumulator: the result is one chunk, a lone period.
\<close>

theorem empty_document_chunks:
  "split_into_chunks '''' 100 = [''.'']"
  by (simp add: split_into_chunks_def strip_def is_space_def)

text \<open>
  C5. For every non-empty document with at least one period, the chunker returns at least
  one chunk, and the chunks, concatenated and with whitespace ignored, are the document
  with whitespace ignored, followed by the one period that the chunker inserts after the
  last piece: no other character is added, lost or moved. With the periods ignored as
  well, the concatenated chunks and the document are the same.
\<close>

theorem chunks_cover_document:
  assumes "text \<noteq> []" and "CHR ''.'' \<in> set text"
  shows "1 \<le> length (split_into_chunks text chunk_size) \<and>
         nows (concat (split_into_chunks text chunk_size)) = nows text @ ''.'' \<and>
         filter (\<lambda>c. c \<noteq> CHR ''.'') (nows (concat (split_into_chunks text chunk_size)))
           = filter (\<lambda>c. c \<noteq> CHR ''.'') (nows text)"
proof -
  have "split_into_chunks text chunk_size \<noteq> []"
    by (rule chunks_not_Nil)
  then have "1 \<le> length (split_into_chunks text chunk_size)"
    by (cases "split_into_chunks text chunk_size") auto
  then show ?thesis
    by (simp add: chunks_nows)
qed

theorem chunks_cover_document_witness:
  "''A is a. B is b.'' \<noteq> [] \<and> CHR ''.'' \<in> set ''A is a. B is b.'' \<and>
   1 \<le> length (split_into_chunks ''A is a. B is b.'' 8) \<and>
   nows (concat (split_into_chunks ''A is a. B is b.'' 8)) = nows ''A is a. B is b.'' @ ''.'' \<and>
   filter (\<lambda>c. c \<noteq> CHR ''.'') (nows (concat (split_into_chunks ''A is a. B is b.'' 8)))
     = filter (\<lambda>c. c \<noteq> CHR ''.'') (nows ''A is a. B is b.'')"
  using chunks_cover_document [of "''A is a. B is b.''" 8] by simp

text \<open>
  C10. For every text, the empty one included, and every chunk size, the chunker returns at
  least one chunk: after the loop the accumulator is not empty and ends with the period
  appended last, so the final flush takes place.
\<close>

theorem split_into_chunks_never_empty:
  "split_into_chunks text chunk_size \<noteq> [] \<and>
   snd (chunk_loop chunk_size (split_on CHR ''.'' text) [] []) \<noteq> [] \<and>
   last (snd (chunk_loop chunk_size (split_on CHR ''.'' text) [] [])) = CHR ''.'' \<and>
   last (split_into_chunks text chunk_size) =
     strip (snd (chunk_loop chunk_size (split_on CHR ''.'' text) [] []))"
proof -
  obtain chunks cur where r:
    "chunk_loop chunk_size (split_on CHR ''.'' text) [] [] = (chunks, cur)"
    by (cases "chunk_loop chunk_size (split_on CHR ''.'' text) [] []")
  from final_current [of chunk_size "text"] r
  have c: "cur \<noteq> [] \<and> last cur = CHR ''.''" by simp
  then have "split_into_chunks text chunk_size = chunks @ [strip cur]"
    using r by (simp add: split_into_chunks_def)
  with c r show ?thesis by simp
qed

section \<open>The size of the chunks\<close>

text \<open>
  C2. For every document and every chunk length threshold \<open>t > 0\<close>, a chunk of the result
  has at most \<open>t\<close> characters, unless it is a single undivided sentence longer than \<open>t\<close>:
  one piece of the document between two periods, with the period that the chunker puts
  back after it, trimmed, where the piece with its period has more than \<open>t\<close> characters.
\<close>

theorem chunk_length_bounded:
  assumes "0 < t" and "c \<in> set (split_into_chunks text t)"
  shows "int (length c) \<le> t \<or>
         (\<exists>s\<in>set (split_on CHR ''.'' text).
            c = strip (s @ ''.'') \<and> t < int (length (s @ ''.'')))"
proof -
  obtain chunks cur where r: "chunk_loop t (split_on CHR ''.'' text) [] [] = (chunks, cur)"
    by (cases "chunk_loop t (split_on CHR ''.'' text) [] []")
  have "int (length ([]::string)) \<le> t \<or> (\<exists>s\<in>set (split_on CHR ''.'' text). [] = s @ ''.'')"
    using assms(1) by simp
  from chunk_loop_sized [OF r subset_refl _ this]
  have inv: "(\<forall>c\<in>set chunks. int (length c) \<le> t \<or>
           (\<exists>s\<in>set (split_on CHR ''.'' text).
              c = strip (s @ ''.'') \<and> t < int (length (s @ ''.'')))) \<and>
         (int (length cur) \<le> t \<or> (\<exists>s\<in>set (split_on CHR ''.'' text). cur = s @ ''.''))"
    by simp
  from assms(2) r have "c \<in> set chunks \<or> c = strip cur"
    by (auto simp: split_into_chunks_def split: if_splits)
  then show ?thesis
  proof
    assume "c \<in> set chunks"
    with inv show ?thesis by blast
  next
    assume "c = strip cur"
    with strip_sized [of cur t "set (split_on CHR ''.'' text)"] inv show ?thesis by blast
  qed
qed

text \<open>
  At threshold 5 the document \<open>Hello world. Hi. Yes\<close> gives the chunk \<open>Hello world.\<close> of 12
  characters: the sentence \<open>Hello world\<close> alone, with its period.
\<close>

theorem chunk_length_bounded_witness:
  "(0::int) < 5 \<and> ''Hello world.'' \<in> set (split_into_chunks ''Hello world. Hi. Yes'' 5) \<and>
   (int (length ''Hello world.'') \<le> 5 \<or>
    (\<exists>s\<in>set (split_on CHR ''.'' ''Hello world. Hi. Yes'').
        ''Hello world.'' = strip (s @ ''.'') \<and> 5 < int (length (s @ ''.''))))"
  using chunk_length_bounded [of 5 "''Hello world.''" "''Hello world. Hi. Yes''"]
  by (simp add: split_into_chunks_def strip_def is_space_def)

section \<open>A document with no period\<close>

text \<open>
  C6, as the code has it. For every non-empty document that contains no period and is
  shorter than the chunk size, the chunker returns exactly one chunk: the document with a
  period appended, trimmed of surrounding whitespace. The loop ends every sentence with a
  period, the last one too, so the chunk is never the document itself.
\<close>

theorem no_period_one_chunk:
  assumes "text \<noteq> []" and "CHR ''.'' \<notin> set text" and "int (length text) < chunk_size"
  shows "split_into_chunks text chunk_size = [strip (text @ ''.'')]"
  using assms by (simp add: split_into_chunks_def split_on_no_sep)

theorem no_period_one_chunk_witness:
  "''abc'' \<noteq> [] \<and> CHR ''.'' \<notin> set ''abc'' \<and> int (length ''abc'') < 100 \<and>
   split_into_chunks ''abc'' 100 = [strip (''abc'' @ ''.'')]"
  using no_period_one_chunk [of "''abc''" 100] by simp

text \<open>
  The document \<open>abc\<close> has no period; its one chunk is \<open>abc.\<close>, not the document.
\<close>

theorem no_period_counterexample:
  "''abc'' \<noteq> [] \<and> CHR ''.'' \<notin> set ''abc'' \<and>
   split_into_chunks ''abc'' 100 = [''abc.''] \<and>
   split_into_chunks ''abc'' 100 \<noteq> [''abc'']"
  by (simp add: split_into_chunks_def strip_def is_space_def)

section \<open>Properties of retrieval\<close>

text \<open>
  C8, as the code has it. Retrieval returns the chunk at the first index of maximal score.
  So for every non-empty corpus and every query, a chunk whose embedding is identical to
  the query embedding is returned when no chunk scores higher than the query embedding
  scores against itself and every chunk before it scores strictly lower.
\<close>

theorem retrieve_exact_match:
  assumes "i < length chunks" and "length chunk_embeddings = length chunks"
    and "chunk_embeddings ! i = encode query"
    and "\<forall>j<length chunks. cosine_similarity (encode query) (chunk_embeddings ! j)
                             \<le> cosine_similarity (encode query) (encode query)"
    and "\<forall>j<i. cosine_similarity (encode query) (chunk_embeddings ! j)
                  < cosine_similarity (encode query) (encode query)"
  shows "retrieve_context encode cosine_similarity chunks chunk_embeddings query
           = Inr (chunks ! i)"
proof -
  let ?scores = "map (cosine_similarity (encode query)) chunk_embeddings"
  have "argmax ?scores = Inr i"
    by (rule argmax_unique) (use assms in auto)
  with assms(1) show ?thesis
    by (simp add: retrieve_context_def getitem_def)
qed

text \<open>
  The example of the specification: two chunks with orthogonal embeddings, the query
  embedding equal to the embedding of chunk 0.
\<close>

theorem retrieve_exact_match_witness:
  "(0::nat) < length [''Paris is the capital of France.'', ''Everest is the tallest mountain.''] \<and>
   [[1, 0], [0, 1]] ! 0 = fixed_encode [1, 0] ''capital?'' \<and>
   retrieve_context (fixed_encode [1, 0]) cosine
     [''Paris is the capital of France.'', ''Everest is the tallest mountain.'']
     [[1, 0], [0, 1]] ''capital?'' = Inr ''Paris is the capital of France.''"
  using retrieve_exact_match [of 0
     "[''Paris is the capital of France.'', ''Everest is the tallest mountain.'']"
     "[[1, 0], [0, 1]]" "fixed_encode [1, 0]" "''capital?''" cosine]
  by (simp add: fixed_encode_def cosine_def dot_def unit_norm_def less_Suc_eq
      all_conj_distrib numeral_2_eq_2)

text \<open>
  The embedding of chunk 1 is identical to the query embedding, and the embedding of
  chunk 0 points the same way with twice the length: both score 1, the first maximum is
  at index 0, and chunk 0 is returned, not chunk 1.
\<close>

theorem retrieve_exact_match_counterexample:
  "[[2, 0], [1, 0]] ! 1 = fixed_encode [1, 0] ''capital?'' \<and>
   retrieve_context (fixed_encode [1, 0]) cosine
     [''Paris is the capital of France.'', ''Everest is the tallest mountain.'']
     [[2, 0], [1, 0]] ''capital?'' = Inr ''Paris is the capital of France.'' \<and>
   retrieve_context (fixed_encode [1, 0]) cosine
     [''Paris is the capital of France.'', ''Everest is the tallest mountain.'']
     [[2, 0], [1, 0]] ''capital?'' \<noteq> Inr ''Everest is the tallest mountain.''"
  by (simp add: retrieve_context_def argmax_def getitem_def fixed_encode_def cosine_def
      dot_def unit_norm_def sqrt_four)

text \<open>
  C9, as the code has it. The code does not look at the magnitude of the query embedding.
  If the query embedding is the all-zero vector and the corpus is not empty, retrieval
  does not fail: for every embedder and every similarity function it returns the chunk at
  the first index of maximal score, that is, a chunk that no chunk outscores and that
  every earlier chunk scores strictly below. It never gives the error
  \<open>DegenerateEmbedding\<close>.
\<close>

theorem retrieve_zero_query:
  assumes "chunks \<noteq> []" and "length chunk_embeddings = length chunks"
    and "\<forall>x\<in>set (encode query). x = 0"
  shows "(\<exists>i<length chunks.
            retrieve_context encode cosine_similarity chunks chunk_embeddings query
              = Inr (chunks ! i) \<and>
            (\<forall>j<length chunks. cosine_similarity (encode query) (chunk_embeddings ! j)
                                  \<le> cosine_similarity (encode query) (chunk_embeddings ! i)) \<and>
            (\<forall>j<i. cosine_similarity (encode query) (chunk_embeddings ! j)
                       < cosine_similarity (encode query) (chunk_embeddings ! i))) \<and>
         retrieve_context encode cosine_similarity chunks chunk_embeddings query
           \<noteq> Inl DegenerateEmbedding"
proof -
  let ?scores = "map (cosine_similarity (encode query)) chunk_embeddings"
  from assms(1,2) have "?scores \<noteq> []" by auto
  from argmax_first_max [OF this] obtain r where r: "argmax ?scores = Inr r"
    "r < length ?scores" "\<forall>j<length ?scores. ?scores ! j \<le> ?scores ! r"
    "\<forall>j<r. ?scores ! j < ?scores ! r"
    by blast
  from r(2) assms(2) have lt: "r < length chunks" by simp
  from r(1) lt
  have res: "retrieve_context encode cosine_similarity chunks chunk_embeddings query
          = Inr (chunks ! r)"
    by (simp add: retrieve_context_def getitem_def)
  have le: "\<forall>j<length chunks. cosine_similarity (encode query) (chunk_embeddings ! j)
                                  \<le> cosine_similarity (encode query) (chunk_embeddings ! r)"
    using r(3) lt assms(2) by simp
  have less: "\<forall>j<r. cosine_similarity (encode query) (chunk_embeddings ! j)
                       < cosine_similarity (encode query) (chunk_embeddings ! r)"
    using r(4) lt assms(2) by simp
  from lt res le less show ?thesis by auto
qed

theorem retrieve_zero_query_witness:
  "[''Paris is the capital of France.'', ''Everest is the tallest mountain.''] \<noteq> [] \<and>
   length [[1, 0], [0, 1 :: real]]
     = length [''Paris is the capital of France.'', ''Everest is the tallest mountain.''] \<and>
   fixed_encode [0, 0] ''capital?'' = [0, 0] \<and>
   (\<exists>i<length [''Paris is the capital of France.'', ''Everest is the tallest mountain.''].
     retrieve_context (fixed_encode [0, 0]) cosine
       [''Paris is the capital of France.'', ''Everest is the tallest mountain.'']
       [[1, 0], [0, 1]] ''capital?''
     = Inr ([''Paris is the capital of France.'', ''Everest is the tallest mountain.''] ! i))"
proof -
  let ?chunks = "[''Paris is the capital of France.'', ''Everest is the tallest mountain.'']"
  let ?embs = "[[1, 0], [0, 1 :: real]]"
  have h1: "?chunks \<noteq> []" by simp
  have h2: "length ?embs = length ?chunks" by simp
  have h3: "\<forall>x\<in>set (fixed_encode [0, 0] ''capital?''). x = 0"
    by (simp add: fixed_encode_def)
  have h4: "fixed_encode [0, 0] ''capital?'' = [0, 0]"
    by (simp add: fixed_encode_def)
  note t = retrieve_zero_query [of ?chunks ?embs "fixed_encode [0, 0]" "''capital?''" cosine,
      OF h1 h2 h3]
  from t obtain i where "i < length ?chunks"
    and "retrieve_context (fixed_encode [0, 0]) cosine ?chunks ?embs ''capital?''
           = Inr (?chunks ! i)"
    by (elim conjE exE)
  then have "\<exists>i<length ?chunks.
      retrieve_context (fixed_encode [0, 0]) cosine ?chunks ?embs ''capital?''
        = Inr (?chunks ! i)"
    by (intro exI conjI)
  with h1 h2 h4 show ?thesis by (intro conjI)
qed

text \<open>
  With the all-zero query embedding every chunk scores 0, and the first chunk is
  returned: no error.
\<close>

theorem retrieve_zero_query_counterexample:
  "fixed_encode [0, 0] ''capital?'' = [0, 0] \<and>
   retrieve_context (fixed_encode [0, 0]) cosine
     [''Paris is the capital of France.'', ''Everest is the tallest mountain.'']
     [[1, 0], [0, 1]] ''capital?'' = Inr ''Paris is the capital of France.''"
  by (simp add: retrieve_context_def argmax_def getitem_def fixed_encode_def cosine_def
      dot_def unit_norm_def)

end
